theory Spec2Isabelle
  imports Complex_Main "HOL-Library.Word"
begin

section \<open>QRGenPro: the QR engine, the presets and the batch worker\<close>

text \<open>
  A shallow embedding of \<^verbatim>\<open>src/QRGenPro.py\<close>: \<^verbatim>\<open>QREngine.generate\<close>,
  \<^verbatim>\<open>QREngine.add_logo\<close>, \<^verbatim>\<open>Presets.wifi\<close> and \<^verbatim>\<open>BatchWorker.run\<close>.
  The calls into qrcode, Pillow, the file system and \<^verbatim>\<open>str.format\<close> are fields of an
  environment record; everything the program itself computes is defined here.
\<close>

subsection \<open>Python strings\<close>

text \<open>
  A Python \<^verbatim>\<open>str\<close> is a sequence of Unicode code points, so it is a list of code points
  here (an Isabelle \<open>char\<close> is a byte). \<open>ustr\<close> reads an ASCII literal of the source.
\<close>

type_synonym pystr = "nat list"

definition ustr :: "string \<Rightarrow> pystr" where
  "ustr s = map of_char s"

text \<open>
  The code points \<^verbatim>\<open>str.strip()\<close> removes when it is called without arguments: those for
  which \<^verbatim>\<open>str.isspace\<close> holds.
\<close>

definition is_space :: "nat \<Rightarrow> bool" where
  "is_space c \<longleftrightarrow>
     (9 \<le> c \<and> c \<le> 13) \<or> (28 \<le> c \<and> c \<le> 32) \<or> c = 133 \<or> c = 160 \<or> c = 5760 \<or>
     (8192 \<le> c \<and> c \<le> 8202) \<or> c = 8232 \<or> c = 8233 \<or> c = 8239 \<or> c = 8287 \<or> c = 12288"

definition py_strip :: "pystr \<Rightarrow> pystr" where
  "py_strip s = rev (dropWhile is_space (rev (dropWhile is_space s)))"

subsection \<open>Errors\<close>

text \<open>
  \<open>ValueError\<close> is an exception the program raises itself, with its message;
  \<open>External\<close> is any exception (a subclass of \<^verbatim>\<open>Exception\<close>) raised inside a library call.
\<close>

datatype error = ValueError string | External string

definition lift_ext :: "string + 'a \<Rightarrow> error + 'a" where
  "lift_ext r = (case r of Inl e \<Rightarrow> Inl (External e) | Inr v \<Rightarrow> Inr v)"

subsection \<open>Presets\<close>

text \<open>
  \<^verbatim>\<open>Presets.wifi(ssid, password, security, hidden)\<close>; \<^verbatim>\<open>not ssid\<close> and the condition
  \<^verbatim>\<open>password\<close> test a string for emptiness.
\<close>

definition wifi :: "pystr \<Rightarrow> pystr \<Rightarrow> pystr \<Rightarrow> bool \<Rightarrow> error + pystr" where
  "wifi ssid password security hidden =
     (if ssid = [] then Inl (ValueError ''SSID is required'')
      else
        let sec = (if password \<noteq> [] then security else ustr ''nopass'');
            hidden_str = (if hidden then ustr ''true'' else ustr ''false'')
        in Inr (ustr ''WIFI:T:'' @ sec @ ustr '';S:'' @ ssid @ ustr '';P:'' @ password @
                ustr '';H:'' @ hidden_str @ ustr '';;''))"

subsection \<open>Images\<close>

text \<open>
  An RGBA image as Pillow holds it: its size and its pixels row by row
  (\<^verbatim>\<open>getdata()\<close> order), four 8-bit bands per pixel.
\<close>

type_synonym pixel = "8 word \<times> 8 word \<times> 8 word \<times> 8 word"

record image =
  width :: nat
  height :: nat
  data :: "pixel list"

definition alpha :: "pixel \<Rightarrow> 8 word" where
  "alpha p = (case p of (r, g, b, a) \<Rightarrow> a)"

text \<open>\<^verbatim>\<open>Image.new("RGBA", size, color)\<close>.\<close>

definition new_image :: "nat \<times> nat \<Rightarrow> pixel \<Rightarrow> image" where
  "new_image sz color = \<lparr>width = fst sz, height = snd sz, data = replicate (fst sz * snd sz) color\<rparr>"

text \<open>
  Pillow's \<^verbatim>\<open>BLEND(mask, in1, in2)\<close> of \<^verbatim>\<open>ImagingUtils.h\<close>:
  \<^verbatim>\<open>DIV255(in1 * (255 - mask) + in2 * mask)\<close> with
  \<^verbatim>\<open>DIV255(a) = (tmp = a + 128, ((tmp >> 8) + tmp) >> 8)\<close>.
\<close>

definition DIV255 :: "nat \<Rightarrow> nat" where
  "DIV255 a = (let tmp = a + 128 in (tmp div 256 + tmp) div 256)"

definition BLEND :: "8 word \<Rightarrow> 8 word \<Rightarrow> 8 word \<Rightarrow> 8 word" where
  "BLEND msk in1 in2 = of_nat (DIV255 (unat in1 * (255 - unat msk) + unat in2 * unat msk))"

definition blend_pixel :: "8 word \<Rightarrow> pixel \<Rightarrow> pixel \<Rightarrow> pixel" where
  "blend_pixel m p q =
     (case (p, q) of ((r1, g1, b1, a1), (r2, g2, b2, a2)) \<Rightarrow>
        (BLEND m r1 r2, BLEND m g1 g2, BLEND m b1 b2, BLEND m a1 a2))"

text \<open>
  \<^verbatim>\<open>dst.paste(src, pos, mask)\<close> for RGBA images: inside the box of \<open>src\<close> at \<open>pos\<close>
  (clipped to \<open>dst\<close>) every band of the destination pixel, the alpha band included, is
  blended with the source pixel, weighted by the alpha band of the mask; outside the box the
  destination is kept. Both calls of the program pass the pasted image as its own mask.
\<close>

definition paste :: "image \<Rightarrow> image \<Rightarrow> int \<times> int \<Rightarrow> image \<Rightarrow> image" where
  "paste dst src pos msk =
     dst\<lparr>data :=
       map (\<lambda>i.
         let sx = int (i mod width dst) - fst pos;
             sy = int (i div width dst) - snd pos
         in if 0 \<le> sx \<and> sx < int (width src) \<and> 0 \<le> sy \<and> sy < int (height src)
            then let j = nat sy * width src + nat sx
                 in blend_pixel (alpha (data msk ! j)) (data dst ! i) (data src ! j)
            else data dst ! i)
         [0..<length (data dst)]\<rparr>"

subsection \<open>Configuration\<close>

record QRConfig =
  content :: pystr
  box_size :: int
  error_correction :: pystr
  qr_color :: pystr
  bg_color :: pystr
  transparent_bg :: bool
  auto_optimize :: bool
  quiet_zone :: bool
  logo_path :: pystr

text \<open>
  The four constants come from \<^verbatim>\<open>qrcode.constants\<close>, which numbers the levels by the
  two-bit level indicator of the QR format information (L = 01, M = 00, Q = 11, H = 10).
\<close>

definition ERROR_CORRECT_L :: int where "ERROR_CORRECT_L = 1"
definition ERROR_CORRECT_M :: int where "ERROR_CORRECT_M = 0"
definition ERROR_CORRECT_Q :: int where "ERROR_CORRECT_Q = 3"
definition ERROR_CORRECT_H :: int where "ERROR_CORRECT_H = 2"

definition ERROR_LEVELS :: "(pystr \<times> int) list" where
  "ERROR_LEVELS =
     [(ustr ''L - 7% (Fast)'', ERROR_CORRECT_L),
      (ustr ''M - 15% (Standard)'', ERROR_CORRECT_M),
      (ustr ''Q - 25% (High)'', ERROR_CORRECT_Q),
      (ustr ''H - 30% (Maximum)'', ERROR_CORRECT_H)]"

text \<open>\<^verbatim>\<open>d.get(k, default)\<close>.\<close>

definition dict_get :: "('k \<times> 'v) list \<Rightarrow> 'k \<Rightarrow> 'v \<Rightarrow> 'v" where
  "dict_get d k dflt = (case map_of d k of None \<Rightarrow> dflt | Some v \<Rightarrow> v)"

text \<open>
  The share of damaged data a level recovers, as the labels of \<open>ERROR_LEVELS\<close> give it:
  the order of the four tiers.
\<close>

definition recovery_percent :: "int \<Rightarrow> nat" where
  "recovery_percent e =
     (if e = ERROR_CORRECT_L then 7 else if e = ERROR_CORRECT_M then 15
      else if e = ERROR_CORRECT_Q then 25 else if e = ERROR_CORRECT_H then 30 else 0)"

subsection \<open>The environment\<close>

text \<open>The arguments of \<^verbatim>\<open>qrcode.QRCode(...)\<close>, \<^verbatim>\<open>add_data\<close> and \<^verbatim>\<open>make_image\<close>.\<close>

record qr_params =
  qr_version :: "int option"
  qr_error_correction :: int
  qr_box_size :: int
  qr_border :: int
  qr_data :: pystr
  fill_color :: pystr
  back_color :: pystr

datatype save_format = PNG | JPEG_RGB_95

text \<open>
  The library calls of the program. Each one that can raise returns the exception on the
  left.
  \<^item> \<open>path_exists\<close>: \<^verbatim>\<open>os.path.exists\<close>;
  \<^item> \<open>qr_render\<close>: \<^verbatim>\<open>QRCode(...)\<close>, \<^verbatim>\<open>add_data\<close>, \<^verbatim>\<open>make(fit=True)\<close>,
    \<^verbatim>\<open>make_image(...).convert("RGBA")\<close>;
  \<^item> \<open>getrgb\<close>: the first three components of \<^verbatim>\<open>ImageColor.getrgb\<close>;
  \<^item> \<open>image_open\<close>: \<^verbatim>\<open>Image.open(path).convert("RGBA")\<close>;
  \<^item> \<open>thumbnail\<close>: \<^verbatim>\<open>logo.thumbnail(size, Image.Resampling.LANCZOS)\<close>, giving the
    image \<open>logo\<close> has become;
  \<^item> \<open>is_word\<close>: the code points \<^verbatim>\<open>\w\<close> matches; \<open>str_format\<close>:
    \<^verbatim>\<open>naming.format(index=idx, content=safe_content)\<close>; \<open>str_lower\<close>: \<^verbatim>\<open>str.lower\<close>;
    \<open>path_join\<close>: \<^verbatim>\<open>output_dir / name\<close>;
  \<^item> \<open>image_save\<close>: \<^verbatim>\<open>img.save(path, "PNG")\<close> or
    \<^verbatim>\<open>img.convert("RGB").save(path, "JPEG", quality=95)\<close>.
\<close>

record env =
  path_exists :: "pystr \<Rightarrow> bool"
  qr_render :: "qr_params \<Rightarrow> string + image"
  getrgb :: "pystr \<Rightarrow> string + (int \<times> int \<times> int)"
  image_open :: "pystr \<Rightarrow> string + image"
  thumbnail :: "image \<Rightarrow> nat \<times> nat \<Rightarrow> string + image"
  is_word :: "nat \<Rightarrow> bool"
  str_format :: "pystr \<Rightarrow> nat \<Rightarrow> pystr \<Rightarrow> string + pystr"
  str_lower :: "pystr \<Rightarrow> pystr"
  path_join :: "pystr \<Rightarrow> pystr \<Rightarrow> pystr"
  image_save :: "image \<Rightarrow> pystr \<Rightarrow> save_format \<Rightarrow> string + unit"

subsection \<open>QREngine\<close>

text \<open>
  \<^verbatim>\<open>add_logo\<close>, the body of its \<^verbatim>\<open>try\<close> up to the final paste: the padded logo and the
  position it is pasted at. \<^verbatim>\<open>int(min(w, h) * 0.22)\<close> is a double product truncated; the
  double nearest to 0.22 lies above it by about \<open>10\<^sup>-\<^sup>1\<^sup>8\<close>, and the product truncates to
  \<open>min w h * 22 div 100\<close> for every image size below \<open>2\<^sup>3\<^sup>1\<close>.
\<close>

definition logo_overlay :: "env \<Rightarrow> image \<Rightarrow> pystr \<Rightarrow> error + (image \<times> (int \<times> int))" where
  "logo_overlay E qr_img path =
     (case lift_ext (image_open E path) of
        Inl e \<Rightarrow> Inl e
      | Inr logo \<Rightarrow>
          let w = width qr_img; h = height qr_img;
              max_dim = min w h * 22 div 100
          in (case lift_ext (thumbnail E logo (max_dim, max_dim)) of
                Inl e \<Rightarrow> Inl e
              | Inr logo' \<Rightarrow>
                  let pad_size = (width logo' + 8, height logo' + 8);
                      pad = paste (new_image pad_size (255, 255, 255, 255)) logo' (4, 4) logo';
                      pos = ((int w - int (width pad)) div 2, (int h - int (height pad)) div 2)
                  in Inr (pad, pos)))"

text \<open>
  \<^verbatim>\<open>add_logo\<close>: the paste of the padded logo over a copy of the QR image, and the
  \<^verbatim>\<open>except Exception: return qr_img\<close> around the whole body.
\<close>

definition add_logo :: "env \<Rightarrow> image \<Rightarrow> pystr \<Rightarrow> error + image" where
  "add_logo E qr_img path =
     (case logo_overlay E qr_img path of
        Inl e \<Rightarrow> Inr qr_img
      | Inr (pad, pos) \<Rightarrow> Inr (paste qr_img pad pos pad))"

text \<open>Step 1 of \<^verbatim>\<open>generate\<close>: the error-correction constant handed to the encoder.\<close>

definition effective_ecc :: "env \<Rightarrow> QRConfig \<Rightarrow> int" where
  "effective_ecc E config =
     (let ecc = dict_get ERROR_LEVELS (error_correction config) ERROR_CORRECT_M
      in if logo_path config \<noteq> [] \<and> path_exists E (logo_path config)
         then (if ecc < ERROR_CORRECT_Q then ERROR_CORRECT_Q else ecc)
         else ecc)"

text \<open>Step 2: what the encoder and the renderer are called with.\<close>

definition render_params :: "env \<Rightarrow> QRConfig \<Rightarrow> qr_params" where
  "render_params E config =
     \<lparr>qr_version = (if auto_optimize config then None else Some 4),
      qr_error_correction = effective_ecc E config,
      qr_box_size = box_size config,
      qr_border = (if quiet_zone config then 4 else 1),
      qr_data = content config,
      fill_color = qr_color config,
      back_color = bg_color config\<rparr>"

text \<open>Step 3: the loop over \<^verbatim>\<open>datas\<close> that builds \<^verbatim>\<open>new_data\<close>.\<close>

definition tolerance :: int where
  "tolerance = 0"

definition strip_background :: "int \<times> int \<times> int \<Rightarrow> pixel list \<Rightarrow> pixel list" where
  "strip_background bg_rgb datas =
     map (\<lambda>item.
       case (item, bg_rgb) of ((r, g, b, a), (bg0, bg1, bg2)) \<Rightarrow>
         if \<bar>uint r - bg0\<bar> \<le> tolerance \<and> \<bar>uint g - bg1\<bar> \<le> tolerance \<and>
            \<bar>uint b - bg2\<bar> \<le> tolerance
         then (255, 255, 255, 0)
         else item) datas"

text \<open>
  \<^verbatim>\<open>new_data\<close> has one entry for each pixel of \<^verbatim>\<open>datas\<close>, so \<^verbatim>\<open>putdata\<close> overwrites
  every pixel.
\<close>

definition apply_transparency :: "env \<Rightarrow> QRConfig \<Rightarrow> image \<Rightarrow> error + image" where
  "apply_transparency E config img =
     (if transparent_bg config
      then (case lift_ext (getrgb E (bg_color config)) of
              Inl e \<Rightarrow> Inl e
            | Inr bg_rgb \<Rightarrow> Inr (img\<lparr>data := strip_background bg_rgb (data img)\<rparr>))
      else Inr img)"

definition generate :: "env \<Rightarrow> QRConfig \<Rightarrow> error + image" where
  "generate E config =
     (if py_strip (content config) = [] then Inl (ValueError ''Content cannot be empty'')
      else case lift_ext (qr_render E (render_params E config)) of
             Inl e \<Rightarrow> Inl e
           | Inr img \<Rightarrow>
               (case apply_transparency E config img of
                  Inl e \<Rightarrow> Inl e
                | Inr img' \<Rightarrow>
                    if logo_path config \<noteq> [] \<and> path_exists E (logo_path config)
                    then add_logo E img' (logo_path config)
                    else Inr img'))"

subsection \<open>BatchWorker\<close>

record worker =
  items :: "pystr list"
  config :: QRConfig
  output_dir :: pystr
  naming :: pystr
  fmt :: pystr

text \<open>
  What the worker does that is visible outside: the signals it emits and the files it
  saves, in order.
\<close>

datatype event =
    Saved pystr save_format
  | ErrorSignal pystr error
  | Progress nat nat pystr
  | Finished nat nat

text \<open>Whether \<^verbatim>\<open>s.endswith(suffix)\<close>.\<close>

definition endswith :: "pystr \<Rightarrow> pystr \<Rightarrow> bool" where
  "endswith s suffix \<longleftrightarrow> length suffix \<le> length s \<and> drop (length s - length suffix) s = suffix"

text \<open>
  The body of the \<^verbatim>\<open>try\<close> for one item: the path saved to, or the exception that the
  \<^verbatim>\<open>except\<close> clause receives.
\<close>

definition process_item :: "env \<Rightarrow> worker \<Rightarrow> nat \<Rightarrow> pystr \<Rightarrow> error + (pystr \<times> save_format)" where
  "process_item E w idx item =
     (let cfg = (config w)\<lparr>content := item\<rparr>
      in case generate E cfg of
           Inl e \<Rightarrow> Inl e
         | Inr img \<Rightarrow>
             let safe_content =
                   map (\<lambda>c. if is_word E c \<or> c = 45 then c else 95) (take 20 item)
             in (case lift_ext (str_format E (naming w) idx safe_content) of
                   Inl e \<Rightarrow> Inl e
                 | Inr name \<Rightarrow>
                     let ext = (if fmt w = ustr ''PNG'' then ustr ''.png'' else ustr ''.jpg'');
                         name' = (if \<not> endswith (str_lower E name) ext then name @ ext else name);
                         path = path_join E (output_dir w) name';
                         how = (if fmt w = ustr ''PNG'' then PNG else JPEG_RGB_95)
                     in (case lift_ext (image_save E img path how) of
                           Inl e \<Rightarrow> Inl e
                         | Inr u \<Rightarrow> Inr (path, how))))"

text \<open>
  The loop of \<^verbatim>\<open>run\<close> over the pairs that \<^verbatim>\<open>enumerate(self.items, 1)\<close> still has to
  yield, with the counters so far. \<open>stop_seen idx\<close> is the value of \<^verbatim>\<open>self._stop\<close> read at
  the top of the iteration for item \<open>idx\<close>: the flag is written by another thread, so what each
  read returns is an input. The list returned ends with the \<^verbatim>\<open>finished\<close> signal emitted
  after the loop.
\<close>

fun run_loop ::
  "env \<Rightarrow> worker \<Rightarrow> (nat \<Rightarrow> bool) \<Rightarrow> nat \<Rightarrow> nat \<Rightarrow> nat \<Rightarrow> (nat \<times> pystr) list \<Rightarrow> event list" where
  "run_loop E w stop_seen total_n success failed [] = [Finished success failed]"
| "run_loop E w stop_seen total_n success failed ((idx, item) # rest) =
     (if stop_seen idx then [Finished success failed]
      else case process_item E w idx item of
             Inr (path, how) \<Rightarrow>
               Saved path how # Progress idx total_n (take 40 item) #
               run_loop E w stop_seen total_n (success + 1) failed rest
           | Inl e \<Rightarrow>
               ErrorSignal (take 30 item) e # Progress idx total_n (take 40 item) #
               run_loop E w stop_seen total_n success (failed + 1) rest)"

definition run :: "env \<Rightarrow> worker \<Rightarrow> (nat \<Rightarrow> bool) \<Rightarrow> event list" where
  "run E w stop_seen = run_loop E w stop_seen (length (items w)) 0 0 (enumerate 1 (items w))"

subsection \<open>Pillow's thumbnail\<close>

text \<open>
  \<^verbatim>\<open>Image.thumbnail(size, resample)\<close> of Pillow, for an image that is already in memory
  (\<^verbatim>\<open>draft\<close> does nothing). \<^verbatim>\<open>round_aspect(number, key)\<close> is
  \<^verbatim>\<open>max(min(math.floor(number), math.ceil(number), key=key), 1)\<close>. Pillow computes the
  aspect ratio and the keys in doubles; here they are exact rationals, which gives the same
  floor and ceiling and the same nearer candidate for image sizes, and \<open>tie_up\<close> says which
  candidate wins when the two keys are exactly equal (in doubles that depends on rounding).
\<close>

definition round_aspect :: "rat \<Rightarrow> (int \<Rightarrow> rat) \<Rightarrow> bool \<Rightarrow> int" where
  "round_aspect number key tie_up =
     (let lo = \<lfloor>number\<rfloor>; hi = \<lceil>number\<rceil>;
          nearest = (if key lo < key hi then lo
                     else if key hi < key lo then hi
                     else if tie_up then hi else lo)
      in max nearest 1)"

text \<open>
  \<^verbatim>\<open>preserve_aspect_ratio()\<close>: nothing to do when the image fits the box; otherwise
  \<^verbatim>\<open>aspect = self.width / self.height\<close> and the side that has to shrink is recomputed.
  Both divisions raise \<^verbatim>\<open>ZeroDivisionError\<close> on a zero divisor.
\<close>

definition preserve_aspect_ratio :: "bool \<Rightarrow> image \<Rightarrow> nat \<times> nat \<Rightarrow> string + (nat \<times> nat) option" where
  "preserve_aspect_ratio tie_up img provided_size =
     (let x = fst provided_size; y = snd provided_size
      in if x \<ge> width img \<and> y \<ge> height img then Inr None
         else if height img = 0 \<or> y = 0 then Inl ''ZeroDivisionError''
         else
           let aspect = (of_nat (width img) :: rat) / of_nat (height img)
           in if of_nat x / of_nat y \<ge> aspect
              then Inr (Some (nat (round_aspect (of_nat y * aspect)
                                     (\<lambda>n. \<bar>aspect - of_int n / of_nat y\<bar>) tie_up), y))
              else Inr (Some (x, nat (round_aspect (of_nat x / aspect)
                                        (\<lambda>n. if n = 0 then 0 else \<bar>aspect - of_nat x / of_int n\<bar>)
                                        tie_up))))"

text \<open>
  The image \<^verbatim>\<open>self\<close> has become: resized to the size computed, by the resampling filter
  \<open>resample\<close>, unless it already has that size.
\<close>

definition pil_thumbnail ::
  "(image \<Rightarrow> nat \<times> nat \<Rightarrow> pixel list) \<Rightarrow> bool \<Rightarrow> image \<Rightarrow> nat \<times> nat \<Rightarrow> string + image" where
  "pil_thumbnail resample tie_up img sz =
     (case preserve_aspect_ratio tie_up img sz of
        Inl e \<Rightarrow> Inl e
      | Inr None \<Rightarrow> Inr img
      | Inr (Some final_size) \<Rightarrow>
          if (width img, height img) \<noteq> final_size
          then Inr \<lparr>width = fst final_size, height = snd final_size,
                    data = resample img final_size\<rparr>
          else Inr img)"


subsection \<open>Notions used in the statements\<close>

text \<open>\<^verbatim>\<open>img.getpixel((x, y))\<close>.\<close>

definition getpixel :: "image \<Rightarrow> nat \<Rightarrow> nat \<Rightarrow> pixel" where
  "getpixel img x y = data img ! (y * width img + x)"


text \<open>\<^verbatim>\<open>add_logo(add_logo(qr_img, path), path)\<close>.\<close>

definition add_logo_twice :: "env \<Rightarrow> image \<Rightarrow> pystr \<Rightarrow> error + image" where
  "add_logo_twice E qr_img path =
     (case add_logo E qr_img path of Inl e \<Rightarrow> Inl e | Inr once \<Rightarrow> add_logo E once path)"

definition is_progress :: "event \<Rightarrow> bool" where
  "is_progress e = (case e of Progress i n s \<Rightarrow> True | _ \<Rightarrow> False)"

definition is_saved :: "event \<Rightarrow> bool" where
  "is_saved e = (case e of Saved p f \<Rightarrow> True | _ \<Rightarrow> False)"

text \<open>Whether the \<^verbatim>\<open>try\<close> body of \<^verbatim>\<open>run\<close> gets through for the pair \<open>(idx, item)\<close>.\<close>

definition succeeds :: "env \<Rightarrow> worker \<Rightarrow> nat \<times> pystr \<Rightarrow> bool" where
  "succeeds E w p = (case process_item E w (fst p) (snd p) of Inl e \<Rightarrow> False | Inr r \<Rightarrow> True)"

subsection \<open>Example inputs\<close>

text \<open>
  A small environment to run the definitions in: three files exist, two of them are
  one-pixel logos (one half transparent, one opaque) and the third does not decode; the
  renderer returns a white 3 x 3 image with one black module; \<open>thumbnail\<close> leaves an image
  that fits unchanged.
\<close>

definition example_qr :: image where
  "example_qr =
     \<lparr>width = 3, height = 3,
      data = [(255, 255, 255, 255), (255, 255, 255, 255), (255, 255, 255, 255),
              (255, 255, 255, 255), (0, 0, 0, 255), (255, 255, 255, 255),
              (255, 255, 255, 255), (255, 255, 255, 255), (255, 255, 255, 255)]\<rparr>"

definition example_canvas :: image where
  "example_canvas = new_image (25, 25) (0, 0, 0, 255)"

definition example_logo :: image where
  "example_logo = \<lparr>width = 1, height = 1, data = [(255, 0, 0, 128)]\<rparr>"

definition example_logo_opaque :: image where
  "example_logo_opaque = \<lparr>width = 1, height = 1, data = [(255, 0, 0, 255)]\<rparr>"

definition example_env :: env where
  "example_env =
     \<lparr>path_exists = (\<lambda>p. p = ustr ''logo.png'' \<or> p = ustr ''opaque.png'' \<or> p = ustr ''broken.png''),
      qr_render = (\<lambda>p. Inr example_qr),
      getrgb = (\<lambda>s. if s = ustr ''#ffffff'' then Inr (255, 255, 255)
                     else if s = ustr ''#000000'' then Inr (0, 0, 0)
                     else Inl ''unknown color specifier''),
      image_open = (\<lambda>p. if p = ustr ''logo.png'' then Inr example_logo
                         else if p = ustr ''opaque.png'' then Inr example_logo_opaque
                         else Inl ''cannot identify image file''),
      thumbnail = (\<lambda>img sz. if width img \<le> fst sz \<and> height img \<le> snd sz then Inr img
                             else Inl ''resampling is not part of the example''),
      is_word = (\<lambda>c. (48 \<le> c \<and> c \<le> 57) \<or> (65 \<le> c \<and> c \<le> 90) \<or> (97 \<le> c \<and> c \<le> 122) \<or> c = 95),
      str_format = (\<lambda>template idx c. Inr (ustr ''qr_'' @ c)),
      str_lower = (\<lambda>s. s),
      path_join = (\<lambda>d n. d @ ustr ''/'' @ n),
      image_save = (\<lambda>img p f. Inr ())\<rparr>"

definition example_config :: QRConfig where
  "example_config =
     \<lparr>content = ustr ''hello'', box_size = 10, error_correction = ustr ''M - 15% (Standard)'',
      qr_color = ustr ''#000000'', bg_color = ustr ''#ffffff'', transparent_bg = False,
      auto_optimize = True, quiet_zone = True, logo_path = []\<rparr>"

definition example_worker :: worker where
  "example_worker =
     \<lparr>items = [ustr ''a'', [], ustr ''c''], config = example_config, output_dir = ustr ''out'',
      naming = ustr ''qr_{content}'', fmt = ustr ''PNG''\<rparr>"

text \<open>
  A second environment whose \<open>thumbnail\<close> is Pillow's, around a resampler for flat images,
  with a flat 10 x 4 logo; \<open>example_logo_small\<close> is what that logo becomes in a 5 x 5 box and
  \<open>example_pad\<close> the pad built around it.
\<close>

definition example_logo_large :: image where
  "example_logo_large = new_image (10, 4) (255, 0, 0, 255)"

definition example_logo_small :: image where
  "example_logo_small = new_image (5, 2) (255, 0, 0, 255)"

definition example_resample :: "image \<Rightarrow> nat \<times> nat \<Rightarrow> pixel list" where
  "example_resample img sz =
     replicate (fst sz * snd sz) (if data img = [] then (0, 0, 0, 0) else data img ! 0)"

definition example_env_pil :: env where
  "example_env_pil =
     example_env
       \<lparr>image_open := (\<lambda>p. if p = ustr ''large.png'' then Inr example_logo_large
                             else image_open example_env p),
        thumbnail := pil_thumbnail example_resample False\<rparr>"

definition example_pad :: image where
  "example_pad =
     paste (new_image (13, 10) (255, 255, 255, 255)) example_logo_small (4, 4) example_logo_small"

text \<open>An environment whose encoder accepts level M only.\<close>

definition example_env_tiers :: env where
  "example_env_tiers =
     example_env
       \<lparr>qr_render := (\<lambda>p. if qr_error_correction p = ERROR_CORRECT_M then Inr example_qr
                            else Inl ''not level M'')\<rparr>"

section \<open>Properties\<close>

subsection \<open>Auxiliary facts\<close>

lemma lift_ext_simps [simp]:
  "lift_ext (Inl x) = Inl (External x)" "lift_ext (Inr v) = Inr v"
  by (simp_all add: lift_ext_def)

lemma lift_ext_Inr_iff [simp]: "lift_ext r = Inr v \<longleftrightarrow> r = Inr v"
  by (cases r) simp_all

lemma length_ustr [simp]: "length (ustr s) = length s"
  by (simp add: ustr_def)

lemma py_strip_Nil_iff: "py_strip s = [] \<longleftrightarrow> (\<forall>c\<in>set s. is_space c)"
proof
  assume a: "py_strip s = []"
  show "\<forall>c\<in>set s. is_space c"
  proof (rule ccontr)
    assume "\<not> (\<forall>c\<in>set s. is_space c)"
    then have ne: "dropWhile is_space s \<noteq> []" by (simp add: dropWhile_eq_Nil_conv)
    then have "\<not> is_space (hd (dropWhile is_space s))" by (rule hd_dropWhile)
    moreover have "hd (dropWhile is_space s) \<in> set (dropWhile is_space s)" using ne by simp
    moreover from a have "\<forall>x\<in>set (dropWhile is_space s). is_space x"
      by (simp add: py_strip_def dropWhile_eq_Nil_conv)
    ultimately show False by blast
  qed
next
  assume "\<forall>c\<in>set s. is_space c"
  then have d: "dropWhile is_space s = []" by (simp add: dropWhile_eq_Nil_conv)
  show "py_strip s = []" unfolding py_strip_def d by simp
qed

lemma add_logo_Inr: "\<exists>img. add_logo E qr_img path = Inr img"
  by (simp add: add_logo_def split: sum.splits prod.splits)

lemma apply_transparency_not_ValueError: "apply_transparency E cfg img \<noteq> Inl (ValueError m)"
  by (auto simp: apply_transparency_def lift_ext_def split: sum.splits)

lemma dict_get_M:
  "dict_get ERROR_LEVELS (ustr ''M - 15% (Standard)'') ERROR_CORRECT_M = ERROR_CORRECT_M"
  by (simp add: dict_get_def ERROR_LEVELS_def ustr_def)

lemma dict_get_unknown: "k \<notin> fst ` set d \<Longrightarrow> dict_get d k dflt = dflt"
  by (simp add: dict_get_def map_of_eq_None_iff [THEN iffD2])

text \<open>
  With a logo file present the level handed to the encoder is \<open>ERROR_CORRECT_Q\<close> for every
  requested level: each of the other three constants is below 3.
\<close>

lemma effective_ecc_logo:
  "logo_path cfg \<noteq> [] \<Longrightarrow> path_exists E (logo_path cfg) \<Longrightarrow>
   effective_ecc E cfg = ERROR_CORRECT_Q"
  by (auto simp: effective_ecc_def dict_get_def ERROR_LEVELS_def Let_def
      ERROR_CORRECT_L_def ERROR_CORRECT_M_def ERROR_CORRECT_Q_def ERROR_CORRECT_H_def
      split: option.splits if_splits)

lemma index_in_range:
  assumes "x < w" "y < h"
  shows "y * w + x < w * (h::nat)"
proof -
  have "y * w + x < y * w + w" using assms by simp
  also have "\<dots> = (Suc y) * w" by simp
  also have "\<dots> \<le> h * w" using assms by (intro mult_le_mono1) simp
  finally show ?thesis by (simp add: mult.commute)
qed

lemma paste_size [simp]:
  "width (paste dst src pos m) = width dst" "height (paste dst src pos m) = height dst"
  "length (data (paste dst src pos m)) = length (data dst)"
  by (simp_all add: paste_def)

lemma new_image_size [simp]:
  "width (new_image (w, h) c) = w" "height (new_image (w, h) c) = h"
  "length (data (new_image (w, h) c)) = w * h"
  by (simp_all add: new_image_def)

lemma getpixel_new_image:
  "x < w \<Longrightarrow> y < h \<Longrightarrow> getpixel (new_image (w, h) c) x y = c"
  using index_in_range [of x w y h] by (simp add: getpixel_def new_image_def)

lemma getpixel_paste:
  assumes "x < width dst" "y < height dst" "length (data dst) = width dst * height dst"
  shows "getpixel (paste dst src pos src) x y =
     (let sx = int x - fst pos; sy = int y - snd pos
      in if 0 \<le> sx \<and> sx < int (width src) \<and> 0 \<le> sy \<and> sy < int (height src)
         then blend_pixel (alpha (getpixel src (nat sx) (nat sy))) (getpixel dst x y)
                (getpixel src (nat sx) (nat sy))
         else getpixel dst x y)"
proof -
  have i: "y * width dst + x < length (data dst)"
    using assms index_in_range [of x "width dst" y "height dst"] by simp
  show ?thesis
    using i assms(1) by (simp add: getpixel_def paste_def Let_def)
qed

lemma DIV255_mult: "v < 256 \<Longrightarrow> DIV255 (v * 255) = v"
  by (simp add: DIV255_def Let_def)

lemma BLEND_opaque: "BLEND 255 a b = b"
proof -
  have "unat b < 256" using unsigned_less [of b, where ?'a = nat] by simp
  then show ?thesis by (simp add: BLEND_def DIV255_mult)
qed

lemma BLEND_transparent: "BLEND 0 a b = a"
proof -
  have "unat a < 256" using unsigned_less [of a, where ?'a = nat] by simp
  then show ?thesis by (simp add: BLEND_def DIV255_mult)
qed

lemma blend_pixel_opaque: "blend_pixel 255 p q = q"
  by (cases p, cases q) (simp add: blend_pixel_def BLEND_opaque)

lemma blend_pixel_transparent: "blend_pixel 0 p q = p"
  by (cases p, cases q) (simp add: blend_pixel_def BLEND_transparent)

text \<open>Pasting a fully opaque image a second time at the same place changes nothing.\<close>

lemma paste_opaque_twice:
  assumes wf: "length (data src) = width src * height src"
    and op: "\<forall>p\<in>set (data src). alpha p = 255"
  shows "paste (paste dst src pos src) src pos src = paste dst src pos src"
proof -
  have al: "alpha (data src ! (nat sy * width src + nat sx)) = 255"
    if "0 \<le> sx" "sx < int (width src)" "0 \<le> sy" "sy < int (height src)" for sx sy
  proof -
    have "nat sy * width src + nat sx < width src * height src"
      using that by (intro index_in_range) auto
    then have "data src ! (nat sy * width src + nat sx) \<in> set (data src)"
      using wf by simp
    then show ?thesis using op by blast
  qed
  have "data (paste (paste dst src pos src) src pos src) = data (paste dst src pos src)"
    unfolding paste_def
    by (auto simp: Let_def al blend_pixel_opaque)
  moreover have "width (paste (paste dst src pos src) src pos src) = width (paste dst src pos src)"
    "height (paste (paste dst src pos src) src pos src) = height (paste dst src pos src)"
    by simp_all
  ultimately show ?thesis
    by (simp add: paste_def)
qed

text \<open>The padded logo depends on the QR image through its size only.\<close>

lemma logo_overlay_size_only:
  "width a = width b \<Longrightarrow> height a = height b \<Longrightarrow> logo_overlay E a path = logo_overlay E b path"
  by (simp add: logo_overlay_def cong: sum.case_cong)

lemma logo_overlay_wf:
  assumes "logo_overlay E qr_img path = Inr (pad, pos)"
  shows "length (data pad) = width pad * height pad"
  using assms
  by (auto simp: logo_overlay_def Let_def lift_ext_def split: sum.splits)

lemma add_logo_idempotent_if_opaque:
  assumes "\<forall>pad pos. logo_overlay E qr_img path = Inr (pad, pos) \<longrightarrow>
                     (\<forall>p\<in>set (data pad). alpha p = 255)"
  shows "add_logo_twice E qr_img path = add_logo E qr_img path"
proof (cases "logo_overlay E qr_img path")
  case (Inl e)
  then show ?thesis by (simp add: add_logo_twice_def add_logo_def)
next
  case (Inr r)
  obtain pad pos where r: "r = (pad, pos)" by (cases r)
  with Inr have ov: "logo_overlay E qr_img path = Inr (pad, pos)" by simp
  have wf: "length (data pad) = width pad * height pad" using ov by (rule logo_overlay_wf)
  have op: "\<forall>p\<in>set (data pad). alpha p = 255" using assms ov by blast
  have ov2: "logo_overlay E (paste qr_img pad pos pad) path = Inr (pad, pos)"
    using ov logo_overlay_size_only [of "paste qr_img pad pos pad" qr_img E path] by simp
  show ?thesis
    using ov ov2 paste_opaque_twice [OF wf op, of qr_img pos]
    by (simp add: add_logo_twice_def add_logo_def)
qed

text \<open>
  A logo whose pixels are either fully transparent or fully opaque gives a fully opaque
  padded logo.
\<close>

lemma pad_opaque:
  assumes wf: "length (data logo) = width logo * height logo"
    and al: "\<forall>p\<in>set (data logo). alpha p = 0 \<or> alpha p = 255"
    and p: "p \<in> set (data (paste (new_image sz (255, 255, 255, 255)) logo pos logo))"
  shows "alpha p = 255"
proof -
  let ?N = "new_image sz (255, 255, 255, 255)"
  from p obtain i where i: "i < length (data ?N)" and pi: "p = data (paste ?N logo pos logo) ! i"
    by (auto simp: in_set_conv_nth)
  have white: "data ?N ! i = (255, 255, 255, 255)"
    using i by (simp add: new_image_def)
  let ?sx = "int (i mod width ?N) - fst pos" and ?sy = "int (i div width ?N) - snd pos"
  show ?thesis
  proof (cases "0 \<le> ?sx \<and> ?sx < int (width logo) \<and> 0 \<le> ?sy \<and> ?sy < int (height logo)")
    case False
    then have "p = data ?N ! i" using pi i by (auto simp: paste_def Let_def)
    with white show ?thesis by (simp add: alpha_def)
  next
    case True
    let ?q = "data logo ! (nat ?sy * width logo + nat ?sx)"
    have "nat ?sy * width logo + nat ?sx < width logo * height logo"
      using True by (intro index_in_range) auto
    then have "?q \<in> set (data logo)" using wf by simp
    then have q: "alpha ?q = 0 \<or> alpha ?q = 255" using al by blast
    have "p = blend_pixel (alpha ?q) (data ?N ! i) ?q"
      using pi i True by (simp add: paste_def Let_def)
    with q white show ?thesis
      by (auto simp: blend_pixel_opaque blend_pixel_transparent alpha_def)
  qed
qed


lemma is_progress_simps [simp]:
  "is_progress (Progress i n s)" "\<not> is_progress (Saved p f)"
  "\<not> is_progress (ErrorSignal s e)" "\<not> is_progress (Finished a b)"
  by (simp_all add: is_progress_def)

lemma is_saved_simps [simp]:
  "\<not> is_saved (Progress i n s)" "is_saved (Saved p f)"
  "\<not> is_saved (ErrorSignal s e)" "\<not> is_saved (Finished a b)"
  by (simp_all add: is_saved_def)

lemma run_loop_not_Nil: "run_loop E w stop t s f ps \<noteq> []"
  by (cases ps) (auto split: sum.splits prod.splits if_splits)

text \<open>Without a stop, the loop emits one progress signal for each pair, in order.\<close>

lemma run_loop_progress:
  assumes "\<forall>i. \<not> stop i"
  shows "filter is_progress (run_loop E w stop t s f ps) =
     map (\<lambda>(i, item). Progress i t (take 40 item)) ps"
  using assms
  by (induction ps arbitrary: s f) (auto split: sum.splits prod.splits)

text \<open>Without a stop, the last signal carries the counters advanced once for each pair.\<close>

lemma run_loop_counts:
  assumes "\<forall>i. \<not> stop i"
  shows "last (run_loop E w stop t s f ps) =
     Finished (s + length (filter (succeeds E w) ps))
              (f + length (filter (\<lambda>p. \<not> succeeds E w p) ps))"
  using assms
  by (induction ps arbitrary: s f)
    (auto simp: run_loop_not_Nil succeeds_def split: sum.splits prod.splits)

lemma run_loop_saved:
  "length (filter is_saved (run_loop E w stop t s f ps)) \<le> length ps"
proof (induction ps arbitrary: s f)
  case Nil
  show ?case by simp
next
  case (Cons p ps)
  obtain idx item where p: "p = (idx, item)" by (cases p)
  show ?case
    using Cons.IH [of "Suc s" f] Cons.IH [of s "Suc f"]
    by (auto simp: p split: sum.splits prod.splits)
qed

text \<open>
  A loop that reads the flag as set for the first time at position \<open>m\<close> does what a loop
  that is never stopped does on the first \<open>m\<close> pairs.
\<close>

lemma run_loop_stop:
  assumes "\<forall>p\<in>set (take m ps). \<not> stop (fst p)" "m < length ps" "stop (fst (ps ! m))"
  shows "run_loop E w stop t s f ps = run_loop E w (\<lambda>_. False) t s f (take m ps)"
  using assms
proof (induction ps arbitrary: s f m)
  case Nil
  then show ?case by simp
next
  case (Cons p ps)
  obtain idx item where p: "p = (idx, item)" by (cases p)
  show ?case
  proof (cases m)
    case 0
    with Cons.prems p show ?thesis by simp
  next
    case (Suc m')
    have ns: "\<not> stop idx" using Cons.prems(1) Suc p by simp
    have ih: "run_loop E w stop t s' f' ps = run_loop E w (\<lambda>_. False) t s' f' (take m' ps)"
      for s' f'
      using Cons.prems Suc by (intro Cons.IH) auto
    show ?thesis
      using ns Suc p by (simp add: ih split: sum.splits prod.splits)
  qed
qed

lemma take_enumerate: "take m (enumerate n xs) = enumerate n (take m xs)"
  by (simp add: enumerate_eq_zip take_zip take_upt min_def)

lemma filter_partition_length:
  "length (filter P xs) + length (filter (\<lambda>x. \<not> P x) xs) = length xs"
  by (induction xs) auto

text \<open>What \<open>pil_thumbnail\<close> returns for a square box fits into the box.\<close>

lemma round_aspect_le:
  assumes "number \<le> of_int m" "1 \<le> m"
  shows "round_aspect number key tie_up \<le> m"
proof -
  have hi: "\<lceil>number\<rceil> \<le> m" using assms(1) by (simp add: ceiling_le_iff)
  have "\<lfloor>number\<rfloor> \<le> \<lceil>number\<rceil>" by (rule floor_le_ceiling)
  with hi have lo: "\<lfloor>number\<rfloor> \<le> m" by linarith
  show ?thesis using hi lo assms(2) by (simp add: round_aspect_def Let_def)
qed

lemma rat_divide_le_self:
  assumes "1 < (a::rat)" "0 \<le> b"
  shows "b / a \<le> b"
proof -
  have "b \<le> b * a" using assms mult_left_mono [of 1 a b] by simp
  then show ?thesis using assms by (simp add: divide_le_eq)
qed

lemma preserve_aspect_ratio_fits:
  assumes "preserve_aspect_ratio tie_up img (m, m) = Inr (Some (x, y))"
  shows "x \<le> m \<and> y \<le> m"
proof -
  let ?w = "width img" and ?h = "height img"
  let ?aspect = "(of_nat ?w :: rat) / of_nat ?h"
  from assms have nf: "\<not> (m \<ge> ?w \<and> m \<ge> ?h)" and h: "0 < ?h" and m: "0 < m"
    by (auto simp: preserve_aspect_ratio_def Let_def split: if_splits)
  have one: "(of_nat m :: rat) / of_nat m = 1" using m by simp
  show ?thesis
  proof (cases "?aspect \<le> 1")
    case True
    then have "of_nat m * ?aspect \<le> (of_int (int m) :: rat)"
      using mult_left_mono [of ?aspect 1 "of_nat m :: rat"] by simp
    then have "round_aspect (of_nat m * ?aspect) (\<lambda>n. \<bar>?aspect - of_int n / of_nat m\<bar>) tie_up \<le> int m"
      using m by (intro round_aspect_le) auto
    moreover from assms True nf h m one
    have "x = nat (round_aspect (of_nat m * ?aspect) (\<lambda>n. \<bar>?aspect - of_int n / of_nat m\<bar>) tie_up)" "y = m"
      by (auto simp: preserve_aspect_ratio_def Let_def split: if_splits)
    ultimately show ?thesis by simp
  next
    case False
    then have a: "1 < ?aspect" by simp
    then have "(of_nat m :: rat) / ?aspect \<le> of_nat m"
      by (intro rat_divide_le_self) simp_all
    then have "of_nat m / ?aspect \<le> (of_int (int m) :: rat)" by simp
    then have "round_aspect (of_nat m / ?aspect)
        (\<lambda>n. if n = 0 then 0 else \<bar>?aspect - of_nat m / of_int n\<bar>) tie_up \<le> int m"
      using m by (intro round_aspect_le) auto
    moreover from assms False nf h m one
    have "y = nat (round_aspect (of_nat m / ?aspect)
        (\<lambda>n. if n = 0 then 0 else \<bar>?aspect - of_nat m / of_int n\<bar>) tie_up)" "x = m"
      by (auto simp: preserve_aspect_ratio_def Let_def split: if_splits)
    ultimately show ?thesis by simp
  qed
qed

lemma pil_thumbnail_fits:
  assumes "pil_thumbnail resample tie_up img (m, m) = Inr r"
  shows "width r \<le> m \<and> height r \<le> m"
proof (cases "preserve_aspect_ratio tie_up img (m, m)")
  case (Inl e)
  with assms show ?thesis by (simp add: pil_thumbnail_def)
next
  case (Inr res)
  show ?thesis
  proof (cases res)
    case None
    with Inr have "m \<ge> width img \<and> m \<ge> height img"
      by (auto simp: preserve_aspect_ratio_def Let_def split: if_splits)
    moreover from assms Inr None have "r = img" by (simp add: pil_thumbnail_def)
    ultimately show ?thesis by simp
  next
    case (Some fs)
    obtain x y where fs: "fs = (x, y)" by (cases fs)
    from Inr Some fs have "x \<le> m \<and> y \<le> m"
      using preserve_aspect_ratio_fits [of tie_up img m x y] by simp
    moreover from assms Inr Some fs have "width r = x \<and> height r = y"
      by (auto simp: pil_thumbnail_def split: if_splits)
    ultimately show ?thesis by simp
  qed
qed

lemma pil_thumbnail_succeeds:
  assumes "1 \<le> m" "0 < height img"
  shows "\<exists>r. pil_thumbnail resample tie_up img (m, m) = Inr r"
  using assms
  by (auto simp: pil_thumbnail_def preserve_aspect_ratio_def Let_def split: sum.splits option.splits)

subsection \<open>QREngine.generate\<close>

text \<open>
  C1. With a logo the requested level is meant to be raised to at least Q and never lowered.
  At the request \<^verbatim>\<open>H - 30% (Maximum)\<close> with an existing logo file the lookup gives
  \<open>ERROR_CORRECT_H\<close>, which is 2; the test \<^verbatim>\<open>ecc < ERROR_CORRECT_Q\<close> compares it with 3 and
  succeeds, so the encoder is called with \<open>ERROR_CORRECT_Q\<close>: the 25% level in place of the
  30% level that was asked for.
\<close>

theorem generate_logo_lowers_H_to_Q:
  "dict_get ERROR_LEVELS (ustr ''H - 30% (Maximum)'') ERROR_CORRECT_M = ERROR_CORRECT_H \<and>
   qr_error_correction (render_params example_env
      (example_config\<lparr>error_correction := ustr ''H - 30% (Maximum)'',
                       logo_path := ustr ''logo.png''\<rparr>)) = ERROR_CORRECT_Q \<and>
   recovery_percent ERROR_CORRECT_Q < recovery_percent ERROR_CORRECT_H"
  by (simp add: render_params_def effective_ecc_def dict_get_def ERROR_LEVELS_def ustr_def
      example_env_def example_config_def recovery_percent_def
      ERROR_CORRECT_L_def ERROR_CORRECT_M_def ERROR_CORRECT_Q_def ERROR_CORRECT_H_def)



text \<open>
  C3. \<open>generate\<close> raises \<^verbatim>\<open>ValueError("Content cannot be empty")\<close> when the content is empty
  or consists of white space only, whatever the other fields are; for any other content it
  raises no \<^verbatim>\<open>ValueError\<close> of its own.
\<close>

theorem generate_blank_content:
  "((\<forall>c\<in>set (content cfg). is_space c) \<longrightarrow>
      generate E cfg = Inl (ValueError ''Content cannot be empty'')) \<and>
   (\<not> (\<forall>c\<in>set (content cfg). is_space c) \<longrightarrow>
      (\<forall>m. generate E cfg \<noteq> Inl (ValueError m)))"
proof (intro conjI impI allI)
  assume "\<forall>c\<in>set (content cfg). is_space c"
  then show "generate E cfg = Inl (ValueError ''Content cannot be empty'')"
    by (simp add: generate_def py_strip_Nil_iff)
next
  fix m
  assume "\<not> (\<forall>c\<in>set (content cfg). is_space c)"
  then have ne: "py_strip (content cfg) \<noteq> []" by (simp add: py_strip_Nil_iff)
  show "generate E cfg \<noteq> Inl (ValueError m)"
  proof (cases "qr_render E (render_params E cfg)")
    case (Inl x)
    with ne show ?thesis by (simp add: generate_def)
  next
    case (Inr img)
    show ?thesis
    proof (cases "apply_transparency E cfg img")
      case (Inl e)
      with apply_transparency_not_ValueError [of E cfg img m] Inr ne show ?thesis
        by (simp add: generate_def)
    next
      case r: (Inr img')
      from add_logo_Inr [of E img' "logo_path cfg"] Inr r ne show ?thesis
        by (auto simp: generate_def)
    qed
  qed
qed

theorem generate_blank_content_witness:
  "list_all is_space (content (example_config\<lparr>content := ustr ''  ''\<rparr>)) \<and>
   generate example_env (example_config\<lparr>content := ustr ''  ''\<rparr>) =
     Inl (ValueError ''Content cannot be empty'') \<and>
   \<not> list_all is_space (content example_config) \<and>
   generate example_env example_config \<noteq> Inl (ValueError ''Content cannot be empty'')"
  using generate_blank_content [of "example_config\<lparr>content := ustr ''  ''\<rparr>" example_env]
    generate_blank_content [of example_config example_env]
  by (simp add: example_config_def ustr_def is_space_def)

text \<open>
  C10. An \<^verbatim>\<open>error_correction\<close> string that is not a key of \<open>ERROR_LEVELS\<close> raises nothing:
  the lookup gives \<open>ERROR_CORRECT_M\<close>, and the level \<open>generate\<close> hands to the encoder is M
  (Q when a logo file is present, as for every label). The only \<^verbatim>\<open>ValueError\<close> of
  \<open>generate\<close> remains the one for blank content, an exception of the encoder at these
  parameters is passed on, every image returned was rendered at these parameters, and the
  result is the one for the label \<^verbatim>\<open>M - 15% (Standard)\<close>.
\<close>

theorem generate_unknown_level_falls_back_to_M:
  assumes "error_correction cfg \<notin> fst ` set ERROR_LEVELS"
  shows "dict_get ERROR_LEVELS (error_correction cfg) ERROR_CORRECT_M = ERROR_CORRECT_M \<and>
         qr_error_correction (render_params E cfg) =
           (if logo_path cfg \<noteq> [] \<and> path_exists E (logo_path cfg)
            then ERROR_CORRECT_Q else ERROR_CORRECT_M) \<and>
         (\<forall>m. generate E cfg = Inl (ValueError m) \<longrightarrow> py_strip (content cfg) = []) \<and>
         (\<forall>x. py_strip (content cfg) \<noteq> [] \<and> qr_render E (render_params E cfg) = Inl x \<longrightarrow>
              generate E cfg = Inl (External x)) \<and>
         (\<forall>out. generate E cfg = Inr out \<longrightarrow>
              (\<exists>img. qr_render E (render_params E cfg) = Inr img)) \<and>
         generate E cfg = generate E (cfg\<lparr>error_correction := ustr ''M - 15% (Standard)''\<rparr>)"
proof -
  let ?c = "cfg\<lparr>error_correction := ustr ''M - 15% (Standard)''\<rparr>"
  have g: "dict_get ERROR_LEVELS (error_correction cfg) ERROR_CORRECT_M = ERROR_CORRECT_M"
    using assms by (rule dict_get_unknown)
  have q: "qr_error_correction (render_params E cfg) =
           (if logo_path cfg \<noteq> [] \<and> path_exists E (logo_path cfg)
            then ERROR_CORRECT_Q else ERROR_CORRECT_M)"
    unfolding render_params_def effective_ecc_def g
    by (simp add: ERROR_CORRECT_M_def ERROR_CORRECT_Q_def)
  have v: "\<forall>m. generate E cfg = Inl (ValueError m) \<longrightarrow> py_strip (content cfg) = []"
  proof (intro allI impI, rule ccontr)
    fix m
    assume f: "generate E cfg = Inl (ValueError m)" and ne: "py_strip (content cfg) \<noteq> []"
    show False
    proof (cases "qr_render E (render_params E cfg)")
      case (Inl x)
      with f ne show False by (simp add: generate_def)
    next
      case (Inr img)
      show False
      proof (cases "apply_transparency E cfg img")
        case (Inl e)
        with apply_transparency_not_ValueError [of E cfg img m] Inr ne f show False
          by (simp add: generate_def)
      next
        case r: (Inr img')
        from add_logo_Inr [of E img' "logo_path cfg"] Inr r ne f show False
          by (auto simp: generate_def split: if_splits)
      qed
    qed
  qed
  have x: "\<forall>x. py_strip (content cfg) \<noteq> [] \<and> qr_render E (render_params E cfg) = Inl x \<longrightarrow>
              generate E cfg = Inl (External x)"
    by (simp add: generate_def)
  have s: "\<forall>out. generate E cfg = Inr out \<longrightarrow>
              (\<exists>img. qr_render E (render_params E cfg) = Inr img)"
    by (auto simp: generate_def split: if_splits sum.splits)
  have e: "effective_ecc E cfg = effective_ecc E ?c"
    by (simp add: effective_ecc_def g dict_get_M)
  have p: "render_params E cfg = render_params E ?c"
    by (simp add: render_params_def e)
  have t: "apply_transparency E cfg = apply_transparency E ?c"
    by (rule ext) (simp add: apply_transparency_def)
  have eq: "generate E cfg = generate E ?c"
    by (simp add: generate_def p [symmetric] t [symmetric] cong: sum.case_cong if_cong)
  from g q v x s eq show ?thesis by blast
qed

theorem generate_unknown_level_falls_back_to_M_witness:
  "error_correction (example_config\<lparr>error_correction := ustr ''Z''\<rparr>) \<notin> fst ` set ERROR_LEVELS \<and>
   qr_error_correction
     (render_params example_env_tiers (example_config\<lparr>error_correction := ustr ''Z''\<rparr>)) =
     ERROR_CORRECT_M \<and>
   generate example_env_tiers (example_config\<lparr>error_correction := ustr ''Z''\<rparr>) = Inr example_qr \<and>
   error_correction (example_config\<lparr>error_correction := ustr ''Z'', logo_path := ustr ''logo.png''\<rparr>)
     \<notin> fst ` set ERROR_LEVELS \<and>
   qr_error_correction
     (render_params example_env_tiers
        (example_config\<lparr>error_correction := ustr ''Z'', logo_path := ustr ''logo.png''\<rparr>)) =
     ERROR_CORRECT_Q \<and>
   generate example_env_tiers
     (example_config\<lparr>error_correction := ustr ''Z'', logo_path := ustr ''logo.png''\<rparr>) =
     Inl (External ''not level M'')"
proof -
  let ?z = "example_config\<lparr>error_correction := ustr ''Z''\<rparr>"
  let ?zl = "example_config\<lparr>error_correction := ustr ''Z'', logo_path := ustr ''logo.png''\<rparr>"
  have h: "error_correction ?z \<notin> fst ` set ERROR_LEVELS"
    by (simp add: ERROR_LEVELS_def ustr_def)
  have hl: "error_correction ?zl \<notin> fst ` set ERROR_LEVELS"
    by (simp add: ERROR_LEVELS_def ustr_def)
  have nl: "\<not> (logo_path ?z \<noteq> [] \<and> path_exists example_env_tiers (logo_path ?z))"
    by (simp add: example_config_def)
  have l: "logo_path ?zl \<noteq> [] \<and> path_exists example_env_tiers (logo_path ?zl)"
    by (simp add: example_env_tiers_def example_env_def ustr_def)
  have ne: "py_strip (content ?z) \<noteq> []" "py_strip (content ?zl) \<noteq> []"
    by (simp_all add: example_config_def ustr_def py_strip_def is_space_def)
  note t = generate_unknown_level_falls_back_to_M [OF h, of example_env_tiers]
  note tl = generate_unknown_level_falls_back_to_M [OF hl, of example_env_tiers]
  from t have "qr_error_correction (render_params example_env_tiers ?z) =
      (if logo_path ?z \<noteq> [] \<and> path_exists example_env_tiers (logo_path ?z)
       then ERROR_CORRECT_Q else ERROR_CORRECT_M)"
    by blast
  then have q: "qr_error_correction (render_params example_env_tiers ?z) = ERROR_CORRECT_M"
    by (simp only: if_not_P [OF nl])
  from tl have "qr_error_correction (render_params example_env_tiers ?zl) =
      (if logo_path ?zl \<noteq> [] \<and> path_exists example_env_tiers (logo_path ?zl)
       then ERROR_CORRECT_Q else ERROR_CORRECT_M)"
    by blast
  then have ql: "qr_error_correction (render_params example_env_tiers ?zl) = ERROR_CORRECT_Q"
    by (simp only: if_P [OF l])
  have rr: "qr_render example_env_tiers p =
      (if qr_error_correction p = ERROR_CORRECT_M then Inr example_qr else Inl ''not level M'')"
    for p
    by (simp add: example_env_tiers_def)
  have r: "qr_render example_env_tiers (render_params example_env_tiers ?zl) = Inl ''not level M''"
    unfolding rr ql by (simp add: ERROR_CORRECT_Q_def ERROR_CORRECT_M_def)
  have gl: "generate example_env_tiers ?zl = Inl (External ''not level M'')"
    using tl ne(2) r by blast
  have g: "generate example_env_tiers ?z = Inr example_qr"
    unfolding generate_def rr q using ne(1) nl
    by (simp add: apply_transparency_def example_config_def)
  from h hl q ql g gl show ?thesis by blast
qed

subsection \<open>The logo overlay\<close>

text \<open>
  C6. \<open>add_logo\<close> always returns an image. When the logo cannot be opened or decoded, or
  cannot be resized, it returns the QR image it was given, and \<open>generate\<close> then returns the
  image it had before the logo step.
\<close>

theorem add_logo_never_raises:
  "(\<exists>img. add_logo E qr_img path = Inr img) \<and>
   ((\<exists>e. image_open E path = Inl e) \<longrightarrow> add_logo E qr_img path = Inr qr_img) \<and>
   ((\<exists>logo e. image_open E path = Inr logo \<and>
        thumbnail E logo (min (width qr_img) (height qr_img) * 22 div 100,
                          min (width qr_img) (height qr_img) * 22 div 100) = Inl e)
      \<longrightarrow> add_logo E qr_img path = Inr qr_img) \<and>
   ((\<exists>e. image_open E (logo_path cfg) = Inl e) \<and> py_strip (content cfg) \<noteq> [] \<and>
    qr_render E (render_params E cfg) = Inr img \<and> apply_transparency E cfg img = Inr img'
      \<longrightarrow> generate E cfg = Inr img')"
  by (auto simp: add_logo_def logo_overlay_def generate_def Let_def split: sum.splits prod.splits)

theorem add_logo_never_raises_witness:
  "(\<exists>e. image_open example_env (ustr ''broken.png'') = Inl e) \<and>
   add_logo example_env example_qr (ustr ''broken.png'') = Inr example_qr \<and>
   (\<exists>e. thumbnail example_env example_logo
           (min (width example_qr) (height example_qr) * 22 div 100,
            min (width example_qr) (height example_qr) * 22 div 100) = Inl e) \<and>
   add_logo example_env example_qr (ustr ''logo.png'') = Inr example_qr \<and>
   generate example_env (example_config\<lparr>logo_path := ustr ''broken.png''\<rparr>) = Inr example_qr"
  using add_logo_never_raises [of example_env example_qr "ustr ''broken.png''"
      "example_config\<lparr>logo_path := ustr ''broken.png''\<rparr>" example_qr example_qr]
    add_logo_never_raises [of example_env example_qr "ustr ''logo.png''"
      "example_config\<lparr>logo_path := ustr ''broken.png''\<rparr>" example_qr example_qr]
  by (simp add: example_env_def example_config_def example_qr_def example_logo_def ustr_def
      py_strip_def is_space_def apply_transparency_def)

text \<open>Single pixels of the example images, followed through the two pastes.\<close>

lemma example_canvas_simps:
  "length (data example_canvas) = width example_canvas * height example_canvas"
  "width example_canvas = 25" "height example_canvas = 25"
  "getpixel example_canvas 12 12 = (0, 0, 0, 255)"
  by (simp_all add: example_canvas_def getpixel_new_image)

lemma example_overlay:
  "logo \<in> {example_logo, example_logo_opaque} \<Longrightarrow>
   getpixel (paste (new_image (9, 9) (255, 255, 255, 255)) logo (4, 4) logo) 4 4 =
     blend_pixel (alpha (getpixel logo 0 0)) (255, 255, 255, 255) (getpixel logo 0 0)"
  using getpixel_paste [of 4 "new_image (9, 9) (255, 255, 255, 255)" 4 logo "(4, 4)"]
  by (auto simp: Let_def getpixel_new_image example_logo_def example_logo_opaque_def)

lemma example_paste:
  "length (data dst) = 625 \<Longrightarrow> width dst = 25 \<Longrightarrow> height dst = 25 \<Longrightarrow>
   width pad = 9 \<Longrightarrow> height pad = 9 \<Longrightarrow>
   getpixel (paste dst pad (8, 8) pad) 12 12 =
     blend_pixel (alpha (getpixel pad 4 4)) (getpixel dst 12 12) (getpixel pad 4 4)"
  using getpixel_paste [of 12 dst 12 pad "(8, 8)"]
  by (simp add: Let_def)

lemma blend_steps:
  "blend_pixel 128 (255, 255, 255, 255) (255, 0, 0, 128) = (255, 127, 127, 191)"
  "blend_pixel 191 (0, 0, 0, 255) (255, 127, 127, 191) = (191, 95, 95, 207)"
  "blend_pixel 191 (191, 95, 95, 207) (255, 127, 127, 191) = (239, 119, 119, 195)"
  by (simp_all add: blend_pixel_def BLEND_def DIV255_def)

text \<open>
  C7, as stated, fails: with the half-transparent one-pixel logo, pasting a second time
  blends the padded logo into the result of the first paste once more, and the pixel under
  the logo changes from \<open>(191, 95, 95, 207)\<close> to \<open>(239, 119, 119, 195)\<close>.
\<close>

theorem add_logo_twice_differs:
  "add_logo_twice example_env example_canvas (ustr ''logo.png'') \<noteq>
   add_logo example_env example_canvas (ustr ''logo.png'')"
proof -
  let ?pad = "paste (new_image (9, 9) (255, 255, 255, 255)) example_logo (4, 4) example_logo"
  let ?once = "paste example_canvas ?pad (8, 8) ?pad"
  let ?twice = "paste ?once ?pad (8, 8) ?pad"
  have a: "add_logo example_env example_canvas (ustr ''logo.png'') = Inr ?once"
    by (simp add: add_logo_def logo_overlay_def example_env_def ustr_def Let_def
        example_canvas_simps example_logo_def)
  have b: "add_logo example_env ?once (ustr ''logo.png'') = Inr ?twice"
    by (simp add: add_logo_def logo_overlay_def example_env_def ustr_def Let_def
        example_canvas_simps example_logo_def)
  have l: "getpixel example_logo 0 0 = (255, 0, 0, 128)"
    by (simp add: getpixel_def example_logo_def)
  have p: "getpixel ?pad 4 4 = (255, 127, 127, 191)"
    by (simp add: example_overlay l alpha_def blend_steps)
  have o: "getpixel ?once 12 12 = (191, 95, 95, 207)"
    by (subst example_paste) (simp_all add: example_canvas_simps p alpha_def blend_steps)
  have t: "getpixel ?twice 12 12 = (239, 119, 119, 195)"
    by (subst example_paste) (simp_all add: example_canvas_simps p o alpha_def blend_steps)
  from o t have "?twice \<noteq> ?once" by auto
  with a b show ?thesis by (simp add: add_logo_twice_def)
qed

text \<open>
  C7, amended. \<open>add_logo\<close> applied twice gives what it gives applied once whenever the logo
  cannot be read or resized, or the resized logo has no partially transparent pixel (every
  alpha is 0 or 255).
\<close>

theorem add_logo_idempotent_without_partial_alpha:
  assumes "\<forall>logo logo'. image_open E path = Inr logo \<and>
      thumbnail E logo (min (width qr_img) (height qr_img) * 22 div 100,
                        min (width qr_img) (height qr_img) * 22 div 100) = Inr logo' \<longrightarrow>
      length (data logo') = width logo' * height logo' \<and>
      (\<forall>p\<in>set (data logo'). alpha p = 0 \<or> alpha p = 255)"
  shows "add_logo_twice E qr_img path = add_logo E qr_img path"
proof (rule add_logo_idempotent_if_opaque, intro allI impI ballI)
  fix pad pos p
  assume ov: "logo_overlay E qr_img path = Inr (pad, pos)" and p: "p \<in> set (data pad)"
  from ov obtain logo logo' where
    o: "image_open E path = Inr logo"
    and t: "thumbnail E logo (min (width qr_img) (height qr_img) * 22 div 100,
                        min (width qr_img) (height qr_img) * 22 div 100) = Inr logo'"
    and pad: "pad = paste (new_image (width logo' + 8, height logo' + 8) (255, 255, 255, 255))
                      logo' (4, 4) logo'"
    by (auto simp: logo_overlay_def Let_def lift_ext_def split: sum.splits)
  from assms o t have "length (data logo') = width logo' * height logo'"
    "\<forall>p\<in>set (data logo'). alpha p = 0 \<or> alpha p = 255" by blast+
  then show "alpha p = 255" using p unfolding pad by (rule pad_opaque)
qed

theorem add_logo_idempotent_without_partial_alpha_witness:
  "image_open example_env (ustr ''opaque.png'') = Inr example_logo_opaque \<and>
   thumbnail example_env example_logo_opaque
     (min (width example_canvas) (height example_canvas) * 22 div 100,
      min (width example_canvas) (height example_canvas) * 22 div 100) = Inr example_logo_opaque \<and>
   add_logo_twice example_env example_canvas (ustr ''opaque.png'') =
     add_logo example_env example_canvas (ustr ''opaque.png'') \<and>
   add_logo example_env example_canvas (ustr ''opaque.png'') \<noteq> Inr example_canvas"
proof -
  have h: "\<forall>logo logo'. image_open example_env (ustr ''opaque.png'') = Inr logo \<and>
      thumbnail example_env logo (min (width example_canvas) (height example_canvas) * 22 div 100,
                        min (width example_canvas) (height example_canvas) * 22 div 100) = Inr logo' \<longrightarrow>
      length (data logo') = width logo' * height logo' \<and>
      (\<forall>p\<in>set (data logo'). alpha p = 0 \<or> alpha p = 255)"
    by (auto simp: example_env_def example_logo_opaque_def ustr_def alpha_def split: if_splits)
  have io: "image_open example_env (ustr ''opaque.png'') = Inr example_logo_opaque"
    by (simp add: example_env_def ustr_def)
  have th: "thumbnail example_env example_logo_opaque
     (min (width example_canvas) (height example_canvas) * 22 div 100,
      min (width example_canvas) (height example_canvas) * 22 div 100) = Inr example_logo_opaque"
    by (simp add: example_env_def example_canvas_simps example_logo_opaque_def)
  let ?pad = "paste (new_image (9, 9) (255, 255, 255, 255)) example_logo_opaque (4, 4)
                example_logo_opaque"
  have a: "add_logo example_env example_canvas (ustr ''opaque.png'') =
      Inr (paste example_canvas ?pad (8, 8) ?pad)"
    by (simp add: add_logo_def logo_overlay_def example_env_def ustr_def Let_def
        example_canvas_simps example_logo_opaque_def)
  have l: "getpixel example_logo_opaque 0 0 = (255, 0, 0, 255)"
    by (simp add: getpixel_def example_logo_opaque_def)
  have p: "getpixel ?pad 4 4 = (255, 0, 0, 255)"
    by (simp add: example_overlay l alpha_def blend_pixel_opaque)
  have "getpixel (paste example_canvas ?pad (8, 8) ?pad) 12 12 = (255, 0, 0, 255)"
    by (subst example_paste) (simp_all add: example_canvas_simps p alpha_def blend_pixel_opaque)
  then have "paste example_canvas ?pad (8, 8) ?pad \<noteq> example_canvas"
    using example_canvas_simps(4) by auto
  with a io th show ?thesis
    using add_logo_idempotent_without_partial_alpha [OF h] by simp
qed

text \<open>The example with a logo that has to be reduced.\<close>

lemma example_thumbnail_large:
  "thumbnail example_env_pil example_logo_large (5, 5) = Inr example_logo_small"
  by (simp add: example_env_pil_def pil_thumbnail_def preserve_aspect_ratio_def round_aspect_def
      example_logo_large_def example_logo_small_def example_resample_def new_image_def Let_def)

lemma example_overlay_large:
  "logo_overlay example_env_pil example_canvas (ustr ''large.png'') = Inr (example_pad, (6, 7))"
proof -
  have o: "image_open example_env_pil (ustr ''large.png'') = Inr example_logo_large"
    by (simp add: example_env_pil_def)
  have s: "width example_logo_small = 5" "height example_logo_small = 2"
    by (simp_all add: example_logo_small_def)
  show ?thesis
    by (simp add: logo_overlay_def o example_canvas_simps example_thumbnail_large Let_def s
        example_pad_def)
qed

text \<open>
  C8, as stated, fails: what \<open>add_logo\<close> pastes is the padded logo. The 10 x 4 logo is
  reduced to 5 x 2 for a 25 x 25 image (5 is \<open>25 * 22 div 100\<close>), the pad around it is
  13 x 10, and 13 is more than 22% of 25.
\<close>

theorem add_logo_overlay_exceeds_22_percent:
  "add_logo example_env_pil example_canvas (ustr ''large.png'') =
     Inr (paste example_canvas example_pad (6, 7) example_pad) \<and>
   max (width example_pad) (height example_pad) = 13 \<and>
   min (width example_canvas) (height example_canvas) = 25 \<and>
   \<not> 100 * max (width example_pad) (height example_pad)
       \<le> 22 * min (width example_canvas) (height example_canvas)"
  by (simp add: add_logo_def example_overlay_large example_canvas_simps) (simp add: example_pad_def)

text \<open>
  C8, amended. For a readable logo resized by Pillow's \<open>thumbnail\<close> (which succeeds when
  the box is at least 1 x 1 and the logo has a positive height), each dimension of the resized
  logo is at most \<open>min w h * 22 div 100\<close>, so its larger dimension is at most 22% of the
  smaller dimension of the QR image. The logo is blended, with its own alpha, over opaque
  white at offset \<open>(4, 4)\<close> of a pad 8 pixels wider and higher, whose 4-pixel frame stays
  opaque white; the pad, which is what is pasted and is 8 pixels larger than the logo, goes to
  the centre of the QR image (the two margins differ by at most one pixel).
\<close>

theorem add_logo_overlay_size:
  assumes op: "image_open E path = Inr logo"
    and pil: "thumbnail E logo (min (width qr_img) (height qr_img) * 22 div 100,
                               min (width qr_img) (height qr_img) * 22 div 100) =
              pil_thumbnail resample tie_up logo
                (min (width qr_img) (height qr_img) * 22 div 100,
                 min (width qr_img) (height qr_img) * 22 div 100)"
  shows
    "(1 \<le> min (width qr_img) (height qr_img) * 22 div 100 \<and> 0 < height logo \<longrightarrow>
        (\<exists>logo'. thumbnail E logo (min (width qr_img) (height qr_img) * 22 div 100,
                                   min (width qr_img) (height qr_img) * 22 div 100) = Inr logo')) \<and>
     (\<forall>logo'. thumbnail E logo (min (width qr_img) (height qr_img) * 22 div 100,
                               min (width qr_img) (height qr_img) * 22 div 100) = Inr logo' \<longrightarrow>
        width logo' \<le> min (width qr_img) (height qr_img) * 22 div 100 \<and>
        height logo' \<le> min (width qr_img) (height qr_img) * 22 div 100 \<and>
        100 * max (width logo') (height logo') \<le> 22 * min (width qr_img) (height qr_img) \<and>
        (\<exists>pad px py.
           add_logo E qr_img path = Inr (paste qr_img pad (px, py) pad) \<and>
           width pad = width logo' + 8 \<and> height pad = height logo' + 8 \<and>
           length (data pad) = width pad * height pad \<and>
           (\<forall>x y. x < width pad \<and> y < height pad \<and>
                  (x < 4 \<or> y < 4 \<or> width logo' + 4 \<le> x \<or> height logo' + 4 \<le> y)
                  \<longrightarrow> getpixel pad x y = (255, 255, 255, 255)) \<and>
           (\<forall>x y. x < width logo' \<and> y < height logo' \<longrightarrow>
                  getpixel pad (x + 4) (y + 4) =
                    blend_pixel (alpha (getpixel logo' x y)) (255, 255, 255, 255)
                      (getpixel logo' x y)) \<and>
           px = (int (width qr_img) - int (width pad)) div 2 \<and>
           py = (int (height qr_img) - int (height pad)) div 2 \<and>
           int (width qr_img) - int (width pad) - 2 * px \<in> {0, 1} \<and>
           int (height qr_img) - int (height pad) - 2 * py \<in> {0, 1}))"
proof (intro conjI impI allI)
  assume "1 \<le> min (width qr_img) (height qr_img) * 22 div 100 \<and> 0 < height logo"
  then show "\<exists>logo'. thumbnail E logo (min (width qr_img) (height qr_img) * 22 div 100,
                                   min (width qr_img) (height qr_img) * 22 div 100) = Inr logo'"
    unfolding pil using pil_thumbnail_succeeds by blast
next
  fix logo'
  let ?md = "min (width qr_img) (height qr_img) * 22 div 100"
  assume th: "thumbnail E logo (?md, ?md) = Inr logo'"
  then have fits: "width logo' \<le> ?md \<and> height logo' \<le> ?md"
    unfolding pil by (rule pil_thumbnail_fits)
  from fits show "width logo' \<le> ?md" "height logo' \<le> ?md" by simp_all
  from fits have "max (width logo') (height logo') \<le> ?md" by simp
  then have "100 * max (width logo') (height logo') \<le> 100 * ?md" by simp
  also have "\<dots> \<le> min (width qr_img) (height qr_img) * 22" by simp
  finally show "100 * max (width logo') (height logo') \<le> 22 * min (width qr_img) (height qr_img)"
    by (simp add: mult.commute)
  let ?N = "new_image (width logo' + 8, height logo' + 8) (255, 255, 255, 255)"
  let ?pad = "paste ?N logo' (4, 4) logo'"
  let ?px = "(int (width qr_img) - int (width ?pad)) div 2"
  let ?py = "(int (height qr_img) - int (height ?pad)) div 2"
  have a: "add_logo E qr_img path = Inr (paste qr_img ?pad (?px, ?py) ?pad)"
    using op th by (simp add: add_logo_def logo_overlay_def Let_def)
  have frame: "getpixel ?pad x y = (255, 255, 255, 255)"
    if "x < width ?pad" "y < height ?pad"
       "x < 4 \<or> y < 4 \<or> width logo' + 4 \<le> x \<or> height logo' + 4 \<le> y" for x y
  proof -
    have "getpixel ?pad x y = getpixel ?N x y"
      using that by (subst getpixel_paste) (auto simp: Let_def)
    also have "\<dots> = (255, 255, 255, 255)"
      using that by (simp add: getpixel_new_image)
    finally show ?thesis .
  qed
  have inside: "getpixel ?pad (x + 4) (y + 4) =
      blend_pixel (alpha (getpixel logo' x y)) (255, 255, 255, 255) (getpixel logo' x y)"
    if "x < width logo'" "y < height logo'" for x y
  proof -
    have "getpixel ?pad (x + 4) (y + 4) =
        blend_pixel (alpha (getpixel logo' x y)) (getpixel ?N (x + 4) (y + 4)) (getpixel logo' x y)"
      using that by (subst getpixel_paste) (auto simp: Let_def)
    also have "getpixel ?N (x + 4) (y + 4) = (255, 255, 255, 255)"
      using that by (simp add: getpixel_new_image)
    finally show ?thesis .
  qed
  have cx: "int (width qr_img) - int (width ?pad) - 2 * ?px \<in> {0, 1}" by (simp, presburger)
  have cy: "int (height qr_img) - int (height ?pad) - 2 * ?py \<in> {0, 1}" by (simp, presburger)
  show "\<exists>pad px py.
           add_logo E qr_img path = Inr (paste qr_img pad (px, py) pad) \<and>
           width pad = width logo' + 8 \<and> height pad = height logo' + 8 \<and>
           length (data pad) = width pad * height pad \<and>
           (\<forall>x y. x < width pad \<and> y < height pad \<and>
                  (x < 4 \<or> y < 4 \<or> width logo' + 4 \<le> x \<or> height logo' + 4 \<le> y)
                  \<longrightarrow> getpixel pad x y = (255, 255, 255, 255)) \<and>
           (\<forall>x y. x < width logo' \<and> y < height logo' \<longrightarrow>
                  getpixel pad (x + 4) (y + 4) =
                    blend_pixel (alpha (getpixel logo' x y)) (255, 255, 255, 255)
                      (getpixel logo' x y)) \<and>
           px = (int (width qr_img) - int (width pad)) div 2 \<and>
           py = (int (height qr_img) - int (height pad)) div 2 \<and>
           int (width qr_img) - int (width pad) - 2 * px \<in> {0, 1} \<and>
           int (height qr_img) - int (height pad) - 2 * py \<in> {0, 1}"
    apply (rule exI [of _ ?pad], rule exI [of _ ?px], rule exI [of _ ?py])
    apply (intro conjI)
             apply (rule a)
            apply simp
           apply simp
          apply simp
         apply (intro allI impI)
         apply (rule frame; blast)
        apply (intro allI impI)
        apply (rule inside; blast)
       apply (rule refl)
      apply (rule refl)
     apply (rule cx)
    apply (rule cy)
    done
qed

theorem add_logo_overlay_size_witness:
  "image_open example_env_pil (ustr ''large.png'') = Inr example_logo_large \<and>
   thumbnail example_env_pil example_logo_large
       (min (width example_canvas) (height example_canvas) * 22 div 100,
        min (width example_canvas) (height example_canvas) * 22 div 100) =
     pil_thumbnail example_resample False example_logo_large
       (min (width example_canvas) (height example_canvas) * 22 div 100,
        min (width example_canvas) (height example_canvas) * 22 div 100) \<and>
   thumbnail example_env_pil example_logo_large
       (min (width example_canvas) (height example_canvas) * 22 div 100,
        min (width example_canvas) (height example_canvas) * 22 div 100) = Inr example_logo_small \<and>
   width example_logo_large = 10 \<and> height example_logo_large = 4 \<and>
   width example_logo_small = 5 \<and> height example_logo_small = 2 \<and>
   (\<exists>pad. add_logo example_env_pil example_canvas (ustr ''large.png'') =
            Inr (paste example_canvas pad (6, 7) pad) \<and>
          width pad = 13 \<and> height pad = 10 \<and>
          getpixel pad 0 0 = (255, 255, 255, 255) \<and> getpixel pad 4 4 = (255, 0, 0, 255))"
proof -
  let ?md = "min (width example_canvas) (height example_canvas) * 22 div 100"
  have op: "image_open example_env_pil (ustr ''large.png'') = Inr example_logo_large"
    by (simp add: example_env_pil_def)
  have pil: "thumbnail example_env_pil example_logo_large (?md, ?md) =
      pil_thumbnail example_resample False example_logo_large (?md, ?md)"
    by (simp add: example_env_pil_def)
  have th: "thumbnail example_env_pil example_logo_large (?md, ?md) = Inr example_logo_small"
    using example_thumbnail_large by (simp add: example_canvas_simps)
  have l: "width example_logo_large = 10" "height example_logo_large = 4"
    by (simp_all add: example_logo_large_def)
  have s: "width example_logo_small = 5" "height example_logo_small = 2"
    "getpixel example_logo_small 0 0 = (255, 0, 0, 255)"
    by (simp_all add: example_logo_small_def getpixel_new_image)
  from add_logo_overlay_size [OF op pil, THEN conjunct2, rule_format, OF th]
  obtain pad px py where
    a: "add_logo example_env_pil example_canvas (ustr ''large.png'') =
          Inr (paste example_canvas pad (px, py) pad)"
    and sz: "width pad = width example_logo_small + 8" "height pad = height example_logo_small + 8"
    and fr: "\<forall>x y. x < width pad \<and> y < height pad \<and>
              (x < 4 \<or> y < 4 \<or> width example_logo_small + 4 \<le> x \<or> height example_logo_small + 4 \<le> y)
              \<longrightarrow> getpixel pad x y = (255, 255, 255, 255)"
    and ins: "\<forall>x y. x < width example_logo_small \<and> y < height example_logo_small \<longrightarrow>
                  getpixel pad (x + 4) (y + 4) =
                    blend_pixel (alpha (getpixel example_logo_small x y)) (255, 255, 255, 255)
                      (getpixel example_logo_small x y)"
    and px: "px = (int (width example_canvas) - int (width pad)) div 2"
    and py: "py = (int (height example_canvas) - int (height pad)) div 2"
    by blast
  have "px = 6" "py = 7" using px py sz s by (simp_all add: example_canvas_simps)
  moreover have "getpixel pad 0 0 = (255, 255, 255, 255)" using fr sz s by simp
  moreover have "getpixel pad (0 + 4) (0 + 4) = (255, 0, 0, 255)"
    using ins [rule_format, of 0 0] s by (simp add: alpha_def blend_pixel_opaque)
  ultimately show ?thesis using op pil th l s a sz by auto
qed

subsection \<open>BatchWorker.run\<close>

text \<open>
  C4. When the stop flag is read as set for the first time at the top of the iteration for
  item \<open>k\<close>, the worker has done exactly what an unstopped run does on the first \<open>k - 1\<close> items
  and nothing for the others: the \<^verbatim>\<open>finished\<close> signal is still emitted, last, with
  \<open>success + failed = k - 1\<close>; at most \<open>k - 1\<close> files were saved, and the progress signals are
  those of items \<open>1\<close> to \<open>k - 1\<close>.
\<close>

theorem run_stop_observed:
  assumes "1 \<le> k" "k \<le> length (items w)" "stop_seen k"
    "\<forall>j. 1 \<le> j \<and> j < k \<longrightarrow> \<not> stop_seen j"
  shows "run E w stop_seen =
       run_loop E w (\<lambda>_. False) (length (items w)) 0 0 (enumerate 1 (take (k - 1) (items w))) \<and>
     (\<exists>success failed. last (run E w stop_seen) = Finished success failed \<and>
        success + failed = k - 1) \<and>
     length (filter is_saved (run E w stop_seen)) \<le> k - 1 \<and>
     filter is_progress (run E w stop_seen) =
       map (\<lambda>(i, item). Progress i (length (items w)) (take 40 item))
         (enumerate 1 (take (k - 1) (items w)))"
proof -
  let ?n = "length (items w)"
  let ?ps = "enumerate 1 (take (k - 1) (items w))"
  have len: "length ?ps = k - 1" using assms by simp
  have "run_loop E w stop_seen ?n 0 0 (enumerate 1 (items w)) =
        run_loop E w (\<lambda>_. False) ?n 0 0 (take (k - 1) (enumerate 1 (items w)))"
  proof (rule run_loop_stop)
    show "\<forall>p\<in>set (take (k - 1) (enumerate 1 (items w))). \<not> stop_seen (fst p)"
      using assms by (auto simp: take_enumerate in_set_enumerate_eq)
    show "k - 1 < length (enumerate 1 (items w))" using assms by simp
    show "stop_seen (fst (enumerate 1 (items w) ! (k - 1)))"
      using assms by (simp add: nth_enumerate_eq)
  qed
  then have eq: "run E w stop_seen = run_loop E w (\<lambda>_. False) ?n 0 0 ?ps"
    by (simp add: run_def take_enumerate)
  have ns: "\<forall>i. \<not> (\<lambda>_. False) i" by simp
  have c: "\<exists>success failed. last (run E w stop_seen) = Finished success failed \<and>
      success + failed = k - 1"
    unfolding eq
    using run_loop_counts [OF ns, of E w ?n 0 0 ?ps]
      filter_partition_length [of "succeeds E w" ?ps] len
    by simp
  have s: "length (filter is_saved (run E w stop_seen)) \<le> k - 1"
    unfolding eq using run_loop_saved [of E w "\<lambda>_. False" ?n 0 0 ?ps] len by simp
  have p: "filter is_progress (run E w stop_seen) =
       map (\<lambda>(i, item). Progress i ?n (take 40 item)) ?ps"
    unfolding eq using run_loop_progress [OF ns, of E w ?n 0 0 ?ps] .
  from eq c s p show ?thesis by blast
qed

theorem run_stop_observed_witness:
  "(1::nat) \<le> 3 \<and>
   3 \<le> length (items (example_worker\<lparr>items := [ustr ''a'', ustr ''b'', ustr ''c'', ustr ''d'', ustr ''e'']\<rparr>)) \<and>
   (\<lambda>i. 3 \<le> i) (3::nat) \<and> \<not> (\<lambda>i::nat. 3 \<le> i) 1 \<and> \<not> (\<lambda>i::nat. 3 \<le> i) 2 \<and>
   run example_env (example_worker\<lparr>items := [ustr ''a'', ustr ''b'', ustr ''c'', ustr ''d'', ustr ''e'']\<rparr>)
       (\<lambda>i. 3 \<le> i) =
     [Saved (ustr ''out/qr_a.png'') PNG, Progress 1 5 (ustr ''a''),
      Saved (ustr ''out/qr_b.png'') PNG, Progress 2 5 (ustr ''b''),
      Finished 2 0]"
proof -
  let ?w = "example_worker\<lparr>items := [ustr ''a'', ustr ''b'', ustr ''c'', ustr ''d'', ustr ''e'']\<rparr>"
  have h1: "(1::nat) \<le> 3" by simp
  have h2: "3 \<le> length (items ?w)" by simp
  have h3: "(\<lambda>i. 3 \<le> i) (3::nat)" by simp
  have h4: "\<forall>j. 1 \<le> j \<and> j < 3 \<longrightarrow> \<not> (\<lambda>i::nat. 3 \<le> i) j" by simp
  have g: "generate example_env (example_config\<lparr>content := c\<rparr>) =
      (if py_strip c = [] then Inl (ValueError ''Content cannot be empty'') else Inr example_qr)" for c
    by (simp add: generate_def apply_transparency_def example_env_def example_config_def)
  have pi: "process_item example_env ?w idx (ustr ''a'') = Inr (ustr ''out/qr_a.png'', PNG)"
    "process_item example_env ?w idx (ustr ''b'') = Inr (ustr ''out/qr_b.png'', PNG)" for idx
    by (simp_all add: process_item_def g example_worker_def Let_def)
      (simp_all add: example_env_def endswith_def ustr_def py_strip_def is_space_def)
  from run_stop_observed [of 3 ?w "\<lambda>i. 3 \<le> i" example_env, OF h1 h2 h3 h4]
  have "run example_env ?w (\<lambda>i. 3 \<le> i) =
      run_loop example_env ?w (\<lambda>_. False) (length (items ?w)) 0 0
        (enumerate 1 (take (3 - 1) (items ?w)))"
    by (rule conjunct1)
  also have "\<dots> =
     [Saved (ustr ''out/qr_a.png'') PNG, Progress 1 5 (ustr ''a''),
      Saved (ustr ''out/qr_b.png'') PNG, Progress 2 5 (ustr ''b''),
      Finished 2 0]"
    by (simp add: pi)
  finally show ?thesis
    using h2 by simp
qed

text \<open>
  C5. A run that is never stopped emits exactly one progress signal for each item, in order,
  whether the item succeeded or failed, and ends with the \<^verbatim>\<open>finished\<close> signal whose counts
  add up to the number of items, \<open>success\<close> being the number of items whose processing raised
  nothing. Three items of which the second is empty give \<open>success = 2\<close>, \<open>failed = 1\<close> and
  three progress signals.
\<close>

theorem run_completes_without_stop:
  assumes "\<forall>i. \<not> stop_seen i"
  shows "filter is_progress (run E w stop_seen) =
       map (\<lambda>(i, item). Progress i (length (items w)) (take 40 item)) (enumerate 1 (items w)) \<and>
     (\<exists>success failed.
        last (run E w stop_seen) = Finished success failed \<and>
        success + failed = length (items w) \<and>
        success = length (filter (succeeds E w) (enumerate 1 (items w))))"
  using run_loop_progress [OF assms, of E w "length (items w)" 0 0 "enumerate 1 (items w)"]
    run_loop_counts [OF assms, of E w "length (items w)" 0 0 "enumerate 1 (items w)"]
    filter_partition_length [of "succeeds E w" "enumerate 1 (items w)"]
  by (simp add: run_def)

theorem run_completes_without_stop_witness:
  "(\<forall>i. \<not> (\<lambda>_::nat. False) i) \<and>
   run example_env example_worker (\<lambda>_. False) =
     [Saved (ustr ''out/qr_a.png'') PNG, Progress 1 3 (ustr ''a''),
      ErrorSignal [] (ValueError ''Content cannot be empty''), Progress 2 3 [],
      Saved (ustr ''out/qr_c.png'') PNG, Progress 3 3 (ustr ''c''),
      Finished 2 1] \<and>
   filter is_progress (run example_env example_worker (\<lambda>_. False)) =
     [Progress 1 3 (ustr ''a''), Progress 2 3 [], Progress 3 3 (ustr ''c'')]"
proof -
  have h: "\<forall>i. \<not> (\<lambda>_::nat. False) i" by simp
  have g: "generate example_env (example_config\<lparr>content := c\<rparr>) =
      (if py_strip c = [] then Inl (ValueError ''Content cannot be empty'') else Inr example_qr)" for c
    by (simp add: generate_def apply_transparency_def example_env_def example_config_def)
  have pi: "process_item example_env example_worker idx (ustr ''a'') = Inr (ustr ''out/qr_a.png'', PNG)"
    "process_item example_env example_worker idx [] = Inl (ValueError ''Content cannot be empty'')"
    "process_item example_env example_worker idx (ustr ''c'') = Inr (ustr ''out/qr_c.png'', PNG)"
    for idx
    by (simp_all add: process_item_def g example_worker_def Let_def)
      (simp_all add: example_env_def endswith_def ustr_def py_strip_def is_space_def)
  have r: "run example_env example_worker (\<lambda>_. False) =
     [Saved (ustr ''out/qr_a.png'') PNG, Progress 1 3 (ustr ''a''),
      ErrorSignal [] (ValueError ''Content cannot be empty''), Progress 2 3 [],
      Saved (ustr ''out/qr_c.png'') PNG, Progress 3 3 (ustr ''c''),
      Finished 2 1]"
    using pi by (simp add: run_def example_worker_def)
  from run_completes_without_stop [OF h, of example_env example_worker] r h
  show ?thesis by (simp add: example_worker_def)
qed

subsection \<open>Presets.wifi\<close>

text \<open>
  C9. \<open>wifi\<close> fails when the SSID is empty; otherwise it returns
  \<^verbatim>\<open>WIFI:T:<sec>;S:<ssid>;P:<pw>;H:<hidden>;;\<close> where the security field is \<^verbatim>\<open>nopass\<close>
  whenever the password is empty, whatever security was requested. In particular
  \<^verbatim>\<open>wifi("HomeNet", "", "WPA", False)\<close> is \<^verbatim>\<open>WIFI:T:nopass;S:HomeNet;P:;H:false;;\<close>.
\<close>

theorem wifi_format:
  "(ssid = [] \<longrightarrow> (\<exists>e. wifi ssid pw sec hidden = Inl e)) \<and>
   (ssid \<noteq> [] \<longrightarrow>
      wifi ssid pw sec hidden =
        Inr (ustr ''WIFI:T:'' @ (if pw = [] then ustr ''nopass'' else sec) @ ustr '';S:'' @ ssid @
             ustr '';P:'' @ pw @ ustr '';H:'' @ (if hidden then ustr ''true'' else ustr ''false'') @
             ustr '';;'')) \<and>
   wifi (ustr ''HomeNet'') [] (ustr ''WPA'') False =
     Inr (ustr ''WIFI:T:nopass;S:HomeNet;P:;H:false;;'')"
  by (simp add: wifi_def ustr_def)

theorem wifi_format_witness:
  "wifi [] (ustr ''pw'') (ustr ''WPA'') True = Inl (ValueError ''SSID is required'') \<and>
   wifi (ustr ''Net'') (ustr ''pw'') (ustr ''WEP'') True =
     Inr (ustr ''WIFI:T:WEP;S:Net;P:pw;H:true;;'') \<and>
   wifi (ustr ''Net'') [] (ustr ''WEP'') True = Inr (ustr ''WIFI:T:nopass;S:Net;P:;H:true;;'')"
  using wifi_format [of "[]" "ustr ''pw''" "ustr ''WPA''" True]
    wifi_format [of "ustr ''Net''" "ustr ''pw''" "ustr ''WEP''" True]
    wifi_format [of "ustr ''Net''" "[]" "ustr ''WEP''" True]
  by (simp add: wifi_def ustr_def)

end
